theory Spec2Isabelle
  imports Complex_Main
begin

section \<open>Exercise tracker: the request handlers of index.js\<close>

text \<open>
  The service has four handlers over two Mongoose collections. The handlers are modelled
  as functions from a store to an outcome and a new store. What the handlers call but do
  not define (the date parser behind \<^verbatim>\<open>new Date(string)\<close>, the numeric conversion
  behind \<^verbatim>\<open>Number(string)\<close>, the local time zone, the cast of a route parameter to an
  ObjectId) is collected in a record of parameters, so that every theorem holds for each
  JavaScript engine and each driver version.
\<close>

subsection \<open>JavaScript values\<close>

text \<open>
  A Number is NaN, an infinity or a finite value (rounding and the negative zero are not
  modelled). A request field is absent (\<^verbatim>\<open>undefined\<close>) or a scalar: form bodies and query
  strings give strings, JSON bodies give the other scalars. Nested arrays and objects are
  outside the model.
\<close>

datatype jsnum = NaN | PosInf | NegInf | Fin rat

datatype jsval = JUndefined | JNull | JBool bool | JNum jsnum | JStr string

text \<open>A Date object holds a time value in milliseconds since the epoch, or NaN.\<close>

datatype jsdate = InvalidDate | TimeValue int

type_synonym oid = nat

record platform =
  parseDate :: "string \<Rightarrow> jsdate"
  stringToNumber :: "string \<Rightarrow> jsnum"
  numberToString :: "jsnum \<Rightarrow> string"
  localTZA :: "int \<Rightarrow> int"
  castObjectId :: "string \<Rightarrow> oid option"

text \<open>\<^verbatim>\<open>!v\<close> is the negation of \<open>truthy v\<close>.\<close>

fun truthy :: "jsval \<Rightarrow> bool" where
  "truthy JUndefined = False"
| "truthy JNull = False"
| "truthy (JBool b) = b"
| "truthy (JNum n) = (n \<noteq> NaN \<and> n \<noteq> Fin 0)"
| "truthy (JStr s) = (s \<noteq> [])"

fun toStringJS :: "platform \<Rightarrow> jsval \<Rightarrow> string" where
  "toStringJS p JUndefined = ''undefined''"
| "toStringJS p JNull = ''null''"
| "toStringJS p (JBool b) = (if b then ''true'' else ''false'')"
| "toStringJS p (JNum n) = numberToString p n"
| "toStringJS p (JStr s) = s"

text \<open>\<^verbatim>\<open>Number(v)\<close>.\<close>

fun toNumberJS :: "platform \<Rightarrow> jsval \<Rightarrow> jsnum" where
  "toNumberJS p JUndefined = NaN"
| "toNumberJS p JNull = Fin 0"
| "toNumberJS p (JBool b) = Fin (if b then 1 else 0)"
| "toNumberJS p (JNum n) = n"
| "toNumberJS p (JStr s) = stringToNumber p s"

text \<open>TimeClip: a finite number within 8.64e15 ms of the epoch, truncated towards zero.\<close>

fun timeClip :: "jsnum \<Rightarrow> jsdate" where
  "timeClip (Fin q) =
     (if \<bar>q\<bar> \<le> 8640000000000000 then TimeValue (if 0 \<le> q then \<lfloor>q\<rfloor> else \<lceil>q\<rceil>)
      else InvalidDate)"
| "timeClip n = InvalidDate"

text \<open>\<^verbatim>\<open>new Date(v)\<close>: a string is parsed, every other value is taken as a time value.\<close>

fun newDate :: "platform \<Rightarrow> jsval \<Rightarrow> jsdate" where
  "newDate p (JStr s) = parseDate p s"
| "newDate p v = timeClip (toNumberJS p v)"

subsection \<open>Calendar arithmetic and \<^verbatim>\<open>toDateString\<close>\<close>

text \<open>
  The day number of a time value, the year, month, day of month and weekday of a day
  number (ECMAScript: Day, DayFromYear, InLeapYear, YearFromTime, MonthFromTime,
  DateFromTime, WeekDay). The year is found from an estimate that is off by at most one.
\<close>

definition msPerDay :: int where
  "msPerDay = 86400000"

definition Day :: "int \<Rightarrow> int" where
  "Day t = t div msPerDay"

definition dayFromYear :: "int \<Rightarrow> int" where
  "dayFromYear y =
     365 * (y - 1970) + (y - 1969) div 4 - (y - 1901) div 100 + (y - 1601) div 400"

definition inLeapYear :: "int \<Rightarrow> bool" where
  "inLeapYear y = (y mod 4 = 0 \<and> (y mod 100 \<noteq> 0 \<or> y mod 400 = 0))"

definition leapDays :: "int \<Rightarrow> int" where
  "leapDays y = (if inLeapYear y then 1 else 0)"

definition yearFromDay :: "int \<Rightarrow> int" where
  "yearFromDay d =
     (let y = 1970 + (400 * d) div 146097
      in if d < dayFromYear y then y - 1 else if dayFromYear (y + 1) \<le> d then y + 1 else y)"

definition dayWithinYear :: "int \<Rightarrow> int" where
  "dayWithinYear d = d - dayFromYear (yearFromDay d)"

definition monthFromDay :: "int \<Rightarrow> int" where
  "monthFromDay d =
     (let w = dayWithinYear d; l = leapDays (yearFromDay d)
      in if w < 31 then 0 else if w < 59 + l then 1 else if w < 90 + l then 2
         else if w < 120 + l then 3 else if w < 151 + l then 4 else if w < 181 + l then 5
         else if w < 212 + l then 6 else if w < 243 + l then 7 else if w < 273 + l then 8
         else if w < 304 + l then 9 else if w < 334 + l then 10 else 11)"

definition dateFromDay :: "int \<Rightarrow> int" where
  "dateFromDay d =
     (let w = dayWithinYear d; l = leapDays (yearFromDay d); m = monthFromDay d
      in if m = 0 then w + 1 else if m = 1 then w - 30 else if m = 2 then w - 58 - l
         else if m = 3 then w - 89 - l else if m = 4 then w - 119 - l
         else if m = 5 then w - 150 - l else if m = 6 then w - 180 - l
         else if m = 7 then w - 211 - l else if m = 8 then w - 242 - l
         else if m = 9 then w - 272 - l else if m = 10 then w - 303 - l else w - 333 - l)"

definition weekDay :: "int \<Rightarrow> int" where
  "weekDay d = (d + 4) mod 7"

definition weekdayNames :: "string list" where
  "weekdayNames = [''Sun'', ''Mon'', ''Tue'', ''Wed'', ''Thu'', ''Fri'', ''Sat'']"

definition monthNames :: "string list" where
  "monthNames = [''Jan'', ''Feb'', ''Mar'', ''Apr'', ''May'', ''Jun'',
                 ''Jul'', ''Aug'', ''Sep'', ''Oct'', ''Nov'', ''Dec'']"

definition digitChar :: "nat \<Rightarrow> char" where
  "digitChar n = ''0123456789'' ! (n mod 10)"

fun digitsOf :: "nat \<Rightarrow> string" where
  "digitsOf n = (if n < 10 then [digitChar n] else digitsOf (n div 10) @ [digitChar n])"

declare digitsOf.simps [simp del]

definition padZeros :: "nat \<Rightarrow> string \<Rightarrow> string" where
  "padZeros w s = replicate (w - length s) (CHR ''0'') @ s"

definition yearString :: "int \<Rightarrow> string" where
  "yearString y = (if y < 0 then ''-'' else []) @ padZeros 4 (digitsOf (nat \<bar>y\<bar>))"

text \<open>
  \<^verbatim>\<open>Date.prototype.toDateString\<close>: weekday, month, day of month on two digits and year on
  at least four, in local time; \<^verbatim>\<open>Invalid Date\<close> for NaN.
\<close>

fun toDateString :: "platform \<Rightarrow> jsdate \<Rightarrow> string" where
  "toDateString p InvalidDate = ''Invalid Date''"
| "toDateString p (TimeValue t) =
     (let d = Day (t + localTZA p t)
      in weekdayNames ! nat (weekDay d) @ '' '' @ monthNames ! nat (monthFromDay d) @ '' '' @
         padZeros 2 (digitsOf (nat (dateFromDay d))) @ '' '' @ yearString (yearFromDay d))"

subsection \<open>Utility functions\<close>

text \<open>The argument is the Date of a stored document; \<^verbatim>\<open>new Date(date)\<close> copies it.\<close>

definition toDateStringSafe :: "platform \<Rightarrow> jsdate \<Rightarrow> string" where
  "toDateStringSafe p date = toDateString p date"

definition isDigit :: "char \<Rightarrow> bool" where
  "isDigit c = (c \<in> set ''0123456789'')"

text \<open>\<^verbatim>\<open>/^\d{4}-\d{2}-\d{2}$/.test(str)\<close>: the anchors make the match cover the whole string.\<close>

definition isValidDateStringYYYYMMDD :: "string \<Rightarrow> bool" where
  "isValidDateStringYYYYMMDD str =
     (length str = 10 \<and> list_all isDigit (take 4 str) \<and> str ! 4 = CHR ''-'' \<and>
      list_all isDigit (take 2 (drop 5 str)) \<and> str ! 7 = CHR ''-'' \<and>
      list_all isDigit (drop 8 str))"

subsection \<open>Schemas and models\<close>

text \<open>
  \<^verbatim>\<open>userSchema\<close> (with timestamps) and \<^verbatim>\<open>exerciseSchema\<close>. A collection is the list of its
  documents in insertion order, which is the order an unsorted \<^verbatim>\<open>find\<close> returns.
\<close>

record user =
  user_id :: oid
  username :: string
  createdAt :: int
  updatedAt :: int

record exercise =
  exercise_id :: oid
  userId :: oid
  description :: string
  duration :: jsnum
  date :: jsdate

record store =
  users :: "user list"
  exercises :: "exercise list"

text \<open>
  What a model operation can throw. Only the duplicate-key error (code 11000) is told
  apart by a handler; the others come from Mongoose's casts, from its validation before a
  save, and from the server refusing a command.
\<close>

datatype storageError = CastError | ValidationError | DuplicateKey | ServerRejected

text \<open>
  The casts of the schema types String, Number and Date. A String path takes a scalar by
  its string form; a Number path refuses NaN and a Date path refuses an invalid Date, on
  a document as well as in a query condition.
\<close>

fun castString :: "platform \<Rightarrow> jsval \<Rightarrow> string option" where
  "castString p JUndefined = None"
| "castString p JNull = None"
| "castString p v = Some (toStringJS p v)"

fun castNumber :: "jsnum \<Rightarrow> storageError + jsnum" where
  "castNumber NaN = Inl CastError"
| "castNumber n = Inr n"

fun castDate :: "jsdate \<Rightarrow> storageError + int" where
  "castDate InvalidDate = Inl CastError"
| "castDate (TimeValue t) = Inr t"

text \<open>\<^verbatim>\<open>User.findOne({ username })\<close>: the first document with that username.\<close>

definition findOneByUsername :: "platform \<Rightarrow> store \<Rightarrow> jsval \<Rightarrow> user option" where
  "findOneByUsername p s v =
     (case castString p v of
        None \<Rightarrow> None
      | Some name \<Rightarrow> find (\<lambda>u. username u = name) (users s))"

text \<open>\<^verbatim>\<open>User.findById(_id)\<close>: the route parameter is cast to an ObjectId first.\<close>

definition findById :: "platform \<Rightarrow> store \<Rightarrow> string \<Rightarrow> storageError + user option" where
  "findById p s idParam =
     (case castObjectId p idParam of
        None \<Rightarrow> Inl CastError
      | Some i \<Rightarrow> Inr (find (\<lambda>u. user_id u = i) (users s)))"

text \<open>
  \<^verbatim>\<open>user.save()\<close> of a new document: validation (\<open>username\<close> is required, so not empty),
  then the insert, which the unique indexes on \<open>_id\<close> and \<open>username\<close> can refuse.
\<close>

definition saveUser :: "store \<Rightarrow> user \<Rightarrow> storageError + store" where
  "saveUser s u =
     (if username u = [] then Inl ValidationError
      else if list_ex (\<lambda>v. user_id v = user_id u \<or> username v = username u) (users s)
      then Inl DuplicateKey
      else Inr (s\<lparr>users := users s @ [u]\<rparr>))"

text \<open>
  \<^verbatim>\<open>new Exercise({...})\<close> followed by \<^verbatim>\<open>exercise.save()\<close>: a path whose cast failed, or a
  required path left empty, fails the validation and nothing is inserted.
\<close>

definition saveExercise ::
  "platform \<Rightarrow> store \<Rightarrow> oid \<Rightarrow> oid \<Rightarrow> jsval \<Rightarrow> jsnum \<Rightarrow> jsdate \<Rightarrow> storageError + exercise \<times> store" where
  "saveExercise p s newId uid desc dur exerciseDate =
     (case castString p desc of
        None \<Rightarrow> Inl ValidationError
      | Some d \<Rightarrow>
          if d = [] then Inl ValidationError
          else case castNumber dur of
            Inl e \<Rightarrow> Inl ValidationError
          | Inr n \<Rightarrow>
              (case castDate exerciseDate of
                 Inl e \<Rightarrow> Inl ValidationError
               | Inr t \<Rightarrow>
                   if list_ex (\<lambda>x. exercise_id x = newId) (exercises s) then Inl DuplicateKey
                   else let ex = \<lparr>exercise_id = newId, userId = uid, description = d,
                                   duration = n, date = TimeValue t\<rparr>
                        in Inr (ex, s\<lparr>exercises := exercises s @ [ex]\<rparr>)))"

text \<open>
  The query \<^verbatim>\<open>{ userId: _id, ...dateFilter }\<close>. \<open>dateCond\<close> is the value of the \<open>date\<close> key when
  the filter has one: the optional \<^verbatim>\<open>$gte\<close> and \<^verbatim>\<open>$lte\<close> operands.
\<close>

type_synonym dateCond = "jsdate option \<times> jsdate option"

fun castBound :: "jsdate option \<Rightarrow> storageError + int option" where
  "castBound None = Inr None"
| "castBound (Some d) = (case castDate d of Inl e \<Rightarrow> Inl e | Inr t \<Rightarrow> Inr (Some t))"

fun matchesGte :: "int option \<Rightarrow> jsdate \<Rightarrow> bool" where
  "matchesGte None d = True"
| "matchesGte (Some b) (TimeValue t) = (b \<le> t)"
| "matchesGte (Some b) InvalidDate = False"

fun matchesLte :: "int option \<Rightarrow> jsdate \<Rightarrow> bool" where
  "matchesLte None d = True"
| "matchesLte (Some b) (TimeValue t) = (t \<le> b)"
| "matchesLte (Some b) InvalidDate = False"

text \<open>
  \<^verbatim>\<open>query.limit(n)\<close> as the server applies it: 0 means no limit, a negative limit returns
  as many documents as its absolute value, and a value that is not a 64-bit integer is
  refused.
\<close>

fun applyLimit :: "jsnum \<Rightarrow> 'a list \<Rightarrow> storageError + 'a list" where
  "applyLimit (Fin q) xs =
     (if of_int \<lfloor>q\<rfloor> \<noteq> q \<or> 9223372036854775807 < \<bar>q\<bar> then Inl ServerRejected
      else if q = 0 then Inr xs
      else Inr (take (nat \<bar>\<lfloor>q\<rfloor>\<bar>) xs))"
| "applyLimit n xs = Inl ServerRejected"

text \<open>\<^verbatim>\<open>Exercise.find(filter).select(...)\<close>, with \<^verbatim>\<open>.limit(n)\<close> when \<open>limitN\<close> is given, then \<^verbatim>\<open>exec()\<close>.\<close>

definition findExercises ::
  "platform \<Rightarrow> store \<Rightarrow> string \<Rightarrow> dateCond option \<Rightarrow> jsnum option \<Rightarrow> storageError + exercise list" where
  "findExercises p s idParam dateFilter limitN =
     (case castObjectId p idParam of
        None \<Rightarrow> Inl CastError
      | Some i \<Rightarrow>
          (case (case dateFilter of
                   None \<Rightarrow> Inr (None, None)
                 | Some (g, l) \<Rightarrow>
                     (case castBound g of
                        Inl e \<Rightarrow> Inl e
                      | Inr lo \<Rightarrow> (case castBound l of Inl e \<Rightarrow> Inl e | Inr hi \<Rightarrow> Inr (lo, hi)))) of
             Inl e \<Rightarrow> Inl e
           | Inr (lo, hi) \<Rightarrow>
               (let found = filter (\<lambda>x. userId x = i \<and> matchesGte lo (date x) \<and> matchesLte hi (date x))
                              (exercises s)
                in case limitN of None \<Rightarrow> Inr found | Some n \<Rightarrow> applyLimit n found)))"

subsection \<open>Routes\<close>

record logEntry =
  entry_description :: string
  entry_duration :: jsnum
  entry_date :: string

text \<open>
  The JSON bodies the handlers send, and the outcome of a request: a status with a body,
  or no reply at all when an exception escapes the handler's own \<^verbatim>\<open>catch\<close> block.
\<close>

datatype body =
    ErrorBody string
  | UserBody string oid
  | UsersBody "(string \<times> oid) list"
  | ExerciseBody oid string string jsnum string
  | LogBody string nat oid "logEntry list"

datatype outcome = Reply nat body | Unhandled

definition serverError :: outcome where
  "serverError = Reply 500 (ErrorBody ''Server error'')"

text \<open>
  Requests are handled one at a time except at an \<^verbatim>\<open>await\<close>, where other requests may run.
  The only writes to the user collection are the saves of other \<^verbatim>\<open>POST /api/users\<close>
  requests; \<open>concurrentSaves\<close> applies a list of them, each one landing or being refused.
\<close>

definition concurrentSaves :: "user list \<Rightarrow> store \<Rightarrow> store" where
  "concurrentSaves us s = foldl (\<lambda>a u. case saveUser a u of Inl e \<Rightarrow> a | Inr b \<Rightarrow> b) s us"

text \<open>
  \<^verbatim>\<open>POST /api/users\<close>. \<open>now\<close> and \<open>newId\<close> are the clock and the ObjectId given to the new
  document; \<open>c1\<close> are the saves of other requests that land between this request's lookup
  and its save, \<open>c2\<close> those between the failed save and the lookup in the \<^verbatim>\<open>catch\<close> block.
\<close>

definition createOrGetUser ::
  "platform \<Rightarrow> int \<Rightarrow> oid \<Rightarrow> user list \<Rightarrow> user list \<Rightarrow> jsval \<Rightarrow> store \<Rightarrow> outcome \<times> store" where
  "createOrGetUser p now newId c1 c2 usernameV s =
     (if \<not> truthy usernameV then (Reply 400 (ErrorBody ''username is required''), s)
      else case findOneByUsername p s usernameV of
        Some u \<Rightarrow> (Reply 200 (UserBody (username u) (user_id u)), s)
      | None \<Rightarrow>
          (let s1 = concurrentSaves c1 s
           in case castString p usernameV of
                None \<Rightarrow> (serverError, s1)
              | Some name \<Rightarrow>
                  (case saveUser s1 \<lparr>user_id = newId, username = name,
                                      createdAt = now, updatedAt = now\<rparr> of
                     Inr s2 \<Rightarrow> (Reply 200 (UserBody name newId), s2)
                   | Inl DuplicateKey \<Rightarrow>
                       (let s3 = concurrentSaves c2 s1
                        in case findOneByUsername p s3 usernameV of
                             Some existing \<Rightarrow>
                               (Reply 200 (UserBody (username existing) (user_id existing)), s3)
                           | None \<Rightarrow> (Unhandled, s3))
                   | Inl e \<Rightarrow> (serverError, s1))))"

text \<open>\<^verbatim>\<open>GET /api/users\<close>.\<close>

definition listUsers :: "store \<Rightarrow> outcome \<times> store" where
  "listUsers s = (Reply 200 (UsersBody (map (\<lambda>u. (username u, user_id u)) (users s))), s)"

text \<open>
  \<^verbatim>\<open>POST /api/users/:_id/exercises\<close>. \<open>now\<close> is the clock read by \<^verbatim>\<open>new Date()\<close> and \<open>newId\<close>
  the ObjectId given to the new document.
\<close>

definition appendExercise ::
  "platform \<Rightarrow> int \<Rightarrow> oid \<Rightarrow> string \<Rightarrow> jsval \<Rightarrow> jsval \<Rightarrow> jsval \<Rightarrow> store \<Rightarrow> outcome \<times> store" where
  "appendExercise p now newId idParam desc dur rawDate s =
     (if \<not> truthy desc \<or> \<not> truthy dur
      then (Reply 400 (ErrorBody ''description and duration are required''), s)
      else case findById p s idParam of
        Inl e \<Rightarrow> (serverError, s)
      | Inr None \<Rightarrow> (Reply 404 (ErrorBody ''user not found''), s)
      | Inr (Some u) \<Rightarrow>
          (let exerciseDate =
                 (if truthy rawDate \<and> isValidDateStringYYYYMMDD (toStringJS p rawDate)
                  then newDate p rawDate else TimeValue now)
           in case saveExercise p s newId (user_id u) desc (toNumberJS p dur) exerciseDate of
                Inl e \<Rightarrow> (serverError, s)
              | Inr (ex, s') \<Rightarrow>
                  (Reply 200 (ExerciseBody (user_id u) (username u) (description ex)
                                (duration ex) (toDateStringSafe p (date ex))), s')))"

text \<open>\<^verbatim>\<open>GET /api/users/:_id/logs\<close>; an absent query parameter is \<open>JUndefined\<close>.\<close>

definition logView :: "platform \<Rightarrow> exercise \<Rightarrow> logEntry" where
  "logView p ex = \<lparr>entry_description = description ex, entry_duration = duration ex,
                   entry_date = toDateStringSafe p (date ex)\<rparr>"

definition getLogs ::
  "platform \<Rightarrow> string \<Rightarrow> jsval \<Rightarrow> jsval \<Rightarrow> jsval \<Rightarrow> store \<Rightarrow> outcome \<times> store" where
  "getLogs p idParam fromQ toQ limitQ s =
     (case findById p s idParam of
        Inl e \<Rightarrow> (serverError, s)
      | Inr None \<Rightarrow> (Reply 404 (ErrorBody ''user not found''), s)
      | Inr (Some u) \<Rightarrow>
          (let dateFilter =
                 (if truthy fromQ \<or> truthy toQ
                  then Some (if truthy fromQ then Some (newDate p fromQ) else None,
                             if truthy toQ then Some (newDate p toQ) else None)
                  else None);
               limitN = (if truthy limitQ then Some (toNumberJS p limitQ) else None)
           in case findExercises p s idParam dateFilter limitN of
                Inl e \<Rightarrow> (serverError, s)
              | Inr exs \<Rightarrow>
                  (Reply 200 (LogBody (username u) (length exs) (user_id u)
                                (map (logView p) exs)), s)))"

subsection \<open>A concrete engine for evaluation\<close>

text \<open>
  The theorems below hold for every platform. To evaluate a handler on a concrete request
  the parameters are instantiated on the fragment of each primitive that is written out
  here: date-only ISO strings (parsed as UTC, with a day of month up to 31 carried over
  into the next month, as V8 does), unsigned decimal integers, the string form of
  integers, UTC as the local zone, and ObjectIds written as 24 hexadecimal digits. The
  strings used in the evaluations lie in this fragment or are refused by every engine.
\<close>

definition digitVal :: "char \<Rightarrow> nat" where
  "digitVal c = length (takeWhile (\<lambda>d. d \<noteq> c) ''0123456789'')"

definition natOfDigits :: "string \<Rightarrow> nat" where
  "natOfDigits str = foldl (\<lambda>a c. 10 * a + digitVal c) 0 str"

definition monthStart :: "int \<Rightarrow> int \<Rightarrow> int" where
  "monthStart m l =
     (if m \<le> 0 then 0 else if m = 1 then 31
      else [59, 90, 120, 151, 181, 212, 243, 273, 304, 334] ! nat (min m 11 - 2) + l)"

definition makeDay :: "int \<Rightarrow> int \<Rightarrow> int \<Rightarrow> int" where
  "makeDay y m dt = dayFromYear y + monthStart m (leapDays y) + dt - 1"

definition parseISODate :: "string \<Rightarrow> jsdate" where
  "parseISODate str =
     (if isValidDateStringYYYYMMDD str
      then (let y = natOfDigits (take 4 str); m = natOfDigits (take 2 (drop 5 str));
                dt = natOfDigits (drop 8 str)
            in if 1 \<le> m \<and> m \<le> 12 \<and> 1 \<le> dt \<and> dt \<le> 31
               then TimeValue (makeDay (int y) (int m - 1) (int dt) * msPerDay)
               else InvalidDate)
      else InvalidDate)"

definition decimalToNumber :: "string \<Rightarrow> jsnum" where
  "decimalToNumber str =
     (if list_all isDigit str then Fin (of_nat (natOfDigits str)) else NaN)"

fun integerToString :: "jsnum \<Rightarrow> string" where
  "integerToString NaN = ''NaN''"
| "integerToString PosInf = ''Infinity''"
| "integerToString NegInf = ''-Infinity''"
| "integerToString (Fin q) = (if q < 0 then ''-'' else []) @ digitsOf (nat \<bar>\<lfloor>q\<rfloor>\<bar>)"

definition hexVal :: "char \<Rightarrow> nat" where
  "hexVal c =
     (if c \<in> set ''ABCDEF'' then 10 + length (takeWhile (\<lambda>d. d \<noteq> c) ''ABCDEF'')
      else length (takeWhile (\<lambda>d. d \<noteq> c) ''0123456789abcdef''))"

definition hexObjectId :: "string \<Rightarrow> oid option" where
  "hexObjectId str =
     (if length str = 24 \<and> list_all (\<lambda>c. c \<in> set ''0123456789abcdefABCDEF'') str
      then Some (foldl (\<lambda>a c. 16 * a + hexVal c) 0 str) else None)"

definition engine :: platform where
  "engine = \<lparr>parseDate = parseISODate, stringToNumber = decimalToNumber,
             numberToString = integerToString, localTZA = (\<lambda>t. 0),
             castObjectId = hexObjectId\<rparr>"

text \<open>Sample data: one user, and stores with none, one and five of her exercises.\<close>

definition alice :: user where
  "alice = \<lparr>user_id = 7, username = ''alice'', createdAt = 5, updatedAt = 5\<rparr>"

definition aliceId :: string where
  "aliceId = ''000000000000000000000007''"

definition run :: "oid \<Rightarrow> int \<Rightarrow> exercise" where
  "run i t = \<lparr>exercise_id = i, userId = 7, description = ''run'', duration = Fin 30,
             date = TimeValue t\<rparr>"

definition store0 :: store where
  "store0 = \<lparr>users = [], exercises = []\<rparr>"

definition store1 :: store where
  "store1 = \<lparr>users = [alice], exercises = []\<rparr>"

definition store2 :: store where
  "store2 = \<lparr>users = [alice], exercises = [run 8 1673740800000]\<rparr>"

definition store5 :: store where
  "store5 = \<lparr>users = [alice],
             exercises = [run 1 1672531200000, run 2 1675209600000, run 3 1677628800000,
                          run 4 1704067200000, run 5 1706745600000]\<rparr>"

text \<open>The store after a walk is added to \<open>store2\<close> with the clock at 99.\<close>

definition walk :: exercise where
  "walk = \<lparr>exercise_id = 9, userId = 7, description = ''walk'', duration = Fin 20,
            date = TimeValue 99\<rparr>"

definition store3 :: store where
  "store3 = \<lparr>users = [alice], exercises = [run 8 1673740800000, walk]\<rparr>"

text \<open>A second document with her username, as a concurrent request would save it.\<close>

definition rival :: user where
  "rival = \<lparr>user_id = 9, username = ''alice'', createdAt = 4, updatedAt = 4\<rparr>"

subsection \<open>Predicates of the specification\<close>

text \<open>
  The display format of a date, as the specification words it: a weekday name, a month
  name, the day of the month on two digits and the year on at least four digits (with a
  sign before a negative year), separated by single spaces.
\<close>

definition isYearString :: "string \<Rightarrow> bool" where
  "isYearString str =
     (let ds = (if take 1 str = ''-'' then drop 1 str else str)
      in 4 \<le> length ds \<and> list_all isDigit ds)"

definition isDateString :: "string \<Rightarrow> bool" where
  "isDateString str =
     (take 3 str \<in> set weekdayNames \<and> take 1 (drop 3 str) = '' '' \<and>
      take 3 (drop 4 str) \<in> set monthNames \<and> take 1 (drop 7 str) = '' '' \<and>
      length (take 2 (drop 8 str)) = 2 \<and> list_all isDigit (take 2 (drop 8 str)) \<and>
      take 1 (drop 10 str) = '' '' \<and> isYearString (drop 11 str))"

text \<open>The pattern \<^verbatim>\<open>YYYY-MM-DD\<close> spelled out character by character.\<close>

fun specYYYYMMDD :: "string \<Rightarrow> bool" where
  "specYYYYMMDD [y1, y2, y3, y4, h1, m1, m2, h2, d1, d2] =
     (isDigit y1 \<and> isDigit y2 \<and> isDigit y3 \<and> isDigit y4 \<and> h1 = CHR ''-'' \<and>
      isDigit m1 \<and> isDigit m2 \<and> h2 = CHR ''-'' \<and> isDigit d1 \<and> isDigit d2)"
| "specYYYYMMDD str = False"

text \<open>
  The exercise a call is to store for user \<open>u\<close> once its date is settled, and the reply
  that shows it.
\<close>

definition newExercise :: "platform \<Rightarrow> oid \<Rightarrow> user \<Rightarrow> jsval \<Rightarrow> jsval \<Rightarrow> int \<Rightarrow> exercise" where
  "newExercise p newId u desc dur t =
     \<lparr>exercise_id = newId, userId = user_id u, description = toStringJS p desc,
      duration = toNumberJS p dur, date = TimeValue t\<rparr>"

definition stored :: "store \<Rightarrow> user \<Rightarrow> exercise \<Rightarrow> platform \<Rightarrow> outcome \<times> store" where
  "stored s u ex p =
     (Reply 200 (ExerciseBody (user_id u) (username u) (description ex) (duration ex)
                   (toDateString p (date ex))),
      s\<lparr>exercises := exercises s @ [ex]\<rparr>)"

text \<open>Every stored exercise has a valid date.\<close>

definition validDates :: "store \<Rightarrow> bool" where
  "validDates s = list_all (\<lambda>x. date x \<noteq> InvalidDate) (exercises s)"

text \<open>
  The inclusive date range of a log query: a bound that is absent imposes nothing, and a
  document lies in the range when its date is on the right side of each bound present.
\<close>

fun timeOf :: "jsdate \<Rightarrow> int option" where
  "timeOf InvalidDate = None"
| "timeOf (TimeValue t) = Some t"

definition boundOf :: "platform \<Rightarrow> jsval \<Rightarrow> int option" where
  "boundOf p q = (if truthy q then timeOf (newDate p q) else None)"

definition unparseable :: "platform \<Rightarrow> jsval \<Rightarrow> bool" where
  "unparseable p q = (truthy q \<and> newDate p q = InvalidDate)"

definition inRange :: "int option \<Rightarrow> int option \<Rightarrow> jsdate \<Rightarrow> bool" where
  "inRange lo hi d =
     (case d of
        InvalidDate \<Rightarrow> lo = None \<and> hi = None
      | TimeValue t \<Rightarrow>
          (case lo of None \<Rightarrow> True | Some a \<Rightarrow> a \<le> t) \<and>
          (case hi of None \<Rightarrow> True | Some b \<Rightarrow> t \<le> b))"

section \<open>Properties\<close>

subsection \<open>The date pattern\<close>

text \<open>The regular expression accepts exactly the strings of the spelled-out pattern.\<close>

lemma isValid_eq_spec: "isValidDateStringYYYYMMDD str = specYYYYMMDD str"
  by (induction str rule: specYYYYMMDD.induct) (auto simp: isValidDateStringYYYYMMDD_def)

subsection \<open>Effects of the model operations\<close>

lemma saveExercise_Inr:
  assumes "saveExercise p s newId uid desc dur d = Inr (ex, s')"
  shows "\<exists>t. d = TimeValue t \<and> date ex = TimeValue t"
    and "s' = s\<lparr>exercises := exercises s @ [ex]\<rparr>"
    and "userId ex = uid"
  using assms
  by (auto simp: saveExercise_def Let_def split: option.splits if_splits sum.splits
      elim: castDate.elims)

lemma appendExercise_ok:
  assumes "appendExercise p now newId idParam desc dur rawDate s = (Reply 200 b, s')"
  shows "\<exists>u ex. findById p s idParam = Inr (Some u) \<and>
           saveExercise p s newId (user_id u) desc (toNumberJS p dur)
             (if truthy rawDate \<and> isValidDateStringYYYYMMDD (toStringJS p rawDate)
              then newDate p rawDate else TimeValue now) = Inr (ex, s') \<and>
           b = ExerciseBody (user_id u) (username u) (description ex) (duration ex)
                 (toDateStringSafe p (date ex))"
  using assms
  by (auto simp: appendExercise_def serverError_def Let_def
      split: if_splits sum.splits option.splits prod.splits)

lemma appendExercise_failure:
  assumes "appendExercise p now newId idParam desc dur rawDate s = (r, s')"
    and "\<And>b. r \<noteq> Reply 200 b"
  shows "s' = s"
  using assms
  by (auto simp: appendExercise_def serverError_def Let_def
      split: if_splits sum.splits option.splits prod.splits)

lemma findById_Some:
  assumes "findById p s idParam = Inr (Some u)"
  shows "castObjectId p idParam = Some (user_id u)"
  using assms by (auto simp: findById_def find_Some_iff split: option.splits)

lemma inRange_matches: "(matchesGte lo d \<and> matchesLte hi d) = inRange lo hi d"
  by (cases d; cases lo; cases hi) (simp_all add: inRange_def)

lemma findExercises_found:
  assumes "castObjectId p idParam = Some i"
  shows "findExercises p s idParam
           (if truthy fromQ \<or> truthy toQ
            then Some (if truthy fromQ then Some (newDate p fromQ) else None,
                       if truthy toQ then Some (newDate p toQ) else None)
            else None) limitN =
         (if unparseable p fromQ \<or> unparseable p toQ then Inl CastError
          else (let sel = filter (\<lambda>x. userId x = i \<and>
                                     inRange (boundOf p fromQ) (boundOf p toQ) (date x))
                            (exercises s)
                in case limitN of None \<Rightarrow> Inr sel | Some n \<Rightarrow> applyLimit n sel))"
proof (cases "truthy fromQ")
  case f: True
  show ?thesis
  proof (cases "truthy toQ")
    case t: True
    show ?thesis
      using assms f t
      by (cases "newDate p fromQ"; cases "newDate p toQ")
        (simp_all add: findExercises_def unparseable_def boundOf_def inRange_matches Let_def)
  next
    case t: False
    show ?thesis
      using assms f t
      by (cases "newDate p fromQ")
        (simp_all add: findExercises_def unparseable_def boundOf_def inRange_matches Let_def)
  qed
next
  case f: False
  show ?thesis
  proof (cases "truthy toQ")
    case t: True
    show ?thesis
      using assms f t
      by (cases "newDate p toQ")
        (simp_all add: findExercises_def unparseable_def boundOf_def inRange_matches Let_def)
  next
    case t: False
    show ?thesis
      using assms f t
      by (simp add: findExercises_def unparseable_def boundOf_def inRange_matches Let_def)
  qed
qed


lemma applyLimit_subset: "applyLimit n xs = Inr ys \<Longrightarrow> set ys \<subseteq> set xs"
  by (cases n) (auto split: if_splits dest: in_set_takeD)

lemma findExercises_subset:
  assumes "findExercises p s idParam df limitN = Inr exs"
  shows "set exs \<subseteq> set (exercises s)"
  using assms applyLimit_subset
  by (fastforce simp: findExercises_def Let_def split: option.splits sum.splits prod.splits)

lemma getLogs_ok:
  assumes "getLogs p idParam fromQ toQ limitQ s = (Reply 200 (LogBody un c i lg), s')"
  shows "\<exists>exs. set exs \<subseteq> set (exercises s) \<and> lg = map (logView p) exs \<and> c = length exs \<and> s' = s"
proof -
  define df where "df = (if truthy fromQ \<or> truthy toQ
                  then Some (if truthy fromQ then Some (newDate p fromQ) else None,
                             if truthy toQ then Some (newDate p toQ) else None)
                  else None)"
  define limitN where "limitN = (if truthy limitQ then Some (toNumberJS p limitQ) else None)"
  have g: "getLogs p idParam fromQ toQ limitQ s =
     (case findById p s idParam of
        Inl e \<Rightarrow> (serverError, s)
      | Inr None \<Rightarrow> (Reply 404 (ErrorBody ''user not found''), s)
      | Inr (Some u) \<Rightarrow>
          (case findExercises p s idParam df limitN of
             Inl e \<Rightarrow> (serverError, s)
           | Inr exs \<Rightarrow>
               (Reply 200 (LogBody (username u) (length exs) (user_id u)
                             (map (logView p) exs)), s)))"
    unfolding getLogs_def Let_def df_def limitN_def ..
  from assms obtain exs where
    f: "findExercises p s idParam df limitN = Inr exs"
    and r: "lg = map (logView p) exs" "c = length exs" "s' = s"
    unfolding g by (auto simp: serverError_def split: sum.splits option.splits)
  from findExercises_subset [OF f] r show ?thesis
    by blast
qed

lemma castString_truthy: "truthy v \<Longrightarrow> castString p v = Some (toStringJS p v)"
  by (cases v) simp_all

lemma saveExercise_ok:
  assumes "truthy desc" and "toStringJS p desc \<noteq> []" and "n \<noteq> NaN"
    and "\<not> list_ex (\<lambda>x. exercise_id x = newId) (exercises s)"
  shows "saveExercise p s newId uid desc n (TimeValue t) =
           Inr (\<lparr>exercise_id = newId, userId = uid, description = toStringJS p desc,
                  duration = n, date = TimeValue t\<rparr>,
                s\<lparr>exercises := exercises s @
                  [\<lparr>exercise_id = newId, userId = uid, description = toStringJS p desc,
                    duration = n, date = TimeValue t\<rparr>]\<rparr>)"
  using assms
  by (cases n) (simp_all add: saveExercise_def castString_truthy Let_def)

lemma saveExercise_invalid:
  "saveExercise p s newId uid desc n InvalidDate = Inl ValidationError"
  by (simp add: saveExercise_def split: option.splits sum.splits)

lemma findOneByUsername_truthy:
  "truthy v \<Longrightarrow> findOneByUsername p s v = find (\<lambda>u. username u = toStringJS p v) (users s)"
  by (simp add: findOneByUsername_def castString_truthy)

lemma find_append_list:
  "find P (xs @ ys) = (case find P xs of None \<Rightarrow> find P ys | Some x \<Rightarrow> Some x)"
  by (induction xs) simp_all

lemma users_saveUser: "saveUser s u = Inr s' \<Longrightarrow> users s' = users s @ [u]"
  by (auto simp: saveUser_def split: if_splits)

lemma users_concurrentSaves: "\<exists>ys. users (concurrentSaves c s) = users s @ ys"
  unfolding concurrentSaves_def
proof (induction c arbitrary: s)
  case Nil
  then show ?case by simp
next
  case (Cons u c)
  show ?case
  proof (cases "saveUser s u")
    case (Inl e)
    then show ?thesis using Cons [of s] by simp
  next
    case (Inr b)
    then show ?thesis using Cons [of b] users_saveUser [OF Inr] by auto
  qed
qed

lemma find_concurrentSaves:
  assumes "find P (users s) = Some e"
  shows "find P (users (concurrentSaves c s)) = Some e"
proof -
  obtain ys where "users (concurrentSaves c s) = users s @ ys"
    using users_concurrentSaves by blast
  then show ?thesis using assms by (simp add: find_append_list)
qed

lemma concurrentSaves_Nil: "concurrentSaves [] s = s"
  by (simp add: concurrentSaves_def)

subsection \<open>The calendar\<close>

text \<open>
  The year found from the estimate is the year of the day: the day lies between the first
  day of that year and the first day of the next. Hence the day within the year, the
  month and the day of the month are in range.
\<close>

lemma div_bounds: "0 < n \<Longrightarrow> n * (x div n) \<le> x \<and> x < n * (x div n) + n" for x n :: int
  using mult_div_mod_eq [of n x] pos_mod_bound [of n x] pos_mod_sign [of n x] by linarith

lemma div_succ:
  fixes x n :: int
  assumes n: "0 < n"
  shows "(x + 1) div n = x div n + (if (x + 1) mod n = 0 then 1 else 0)"
proof (cases "x mod n + 1 < n")
  case True
  have e: "x + 1 = n * (x div n) + (x mod n + 1)" by simp
  have r: "0 \<le> x mod n + 1" using pos_mod_sign [OF n, of x] by linarith
  have "(x + 1) div n = x div n" by (rule int_div_pos_eq [OF e r True])
  moreover have "(x + 1) mod n = x mod n + 1" by (rule int_mod_pos_eq [OF e r True])
  ultimately show ?thesis using pos_mod_sign [OF n, of x] by simp
next
  case False
  then have m: "x mod n + 1 = n" using pos_mod_bound [OF n, of x] by linarith
  have "x + 1 = n * (x div n) + (x mod n + 1)" by simp
  then have e: "x + 1 = n * (x div n + 1) + 0" unfolding m by (simp add: algebra_simps)
  have "(x + 1) div n = x div n + 1" by (rule int_div_pos_eq [OF e _ n]) simp
  moreover have "(x + 1) mod n = 0" by (rule int_mod_pos_eq [OF e _ n]) simp
  ultimately show ?thesis by simp
qed

lemma mod_shift: "(y - n * k) mod n = y mod n" for y n k :: int
proof -
  have "y - n * k = y + n * (- k)" by simp
  then show ?thesis by (simp only: mod_mult_self2)
qed

lemma div4_step: "(y - 1968) div 4 = (y - 1969) div 4 + (if y mod 4 = 0 then 1 else 0)" for y :: int
  using div_succ [of 4 "y - 1969"] mod_shift [of y 4 492] by simp

lemma div100_step: "(y - 1900) div 100 = (y - 1901) div 100 + (if y mod 100 = 0 then 1 else 0)" for y :: int
  using div_succ [of 100 "y - 1901"] mod_shift [of y 100 19] by simp

lemma div400_step: "(y - 1600) div 400 = (y - 1601) div 400 + (if y mod 400 = 0 then 1 else 0)" for y :: int
  using div_succ [of 400 "y - 1601"] mod_shift [of y 400 4] by simp

lemma mod_100_4: "y mod 100 = 0 \<Longrightarrow> y mod 4 = 0" for y :: int
proof -
  assume "y mod 100 = 0"
  then have "100 dvd y" by (rule mod_0_imp_dvd)
  moreover have "(4::int) dvd 100" by simp
  ultimately have "4 dvd y" by (metis dvd_trans)
  then show ?thesis by simp
qed

lemma mod_400_100: "y mod 400 = 0 \<Longrightarrow> y mod 100 = 0" for y :: int
proof -
  assume "y mod 400 = 0"
  then have "400 dvd y" by (rule mod_0_imp_dvd)
  moreover have "(100::int) dvd 400" by simp
  ultimately have "100 dvd y" by (metis dvd_trans)
  then show ?thesis by simp
qed

lemma leap_count:
  fixes p4 p100 p400 :: bool
  assumes "p100 \<Longrightarrow> p4" "p400 \<Longrightarrow> p100"
  shows "(if p4 then 1 else 0) - (if p100 then 1 else 0) + (if p400 then 1 else (0::int))
         = (if p4 \<and> (\<not> p100 \<or> p400) then 1 else 0)"
  using assms by (cases p4; cases p100; cases p400; simp)

lemma dayFromYear_step: "dayFromYear (y + 1) = dayFromYear y + (if inLeapYear y then 366 else 365)"
proof -
  define a where "a = (y - 1969) div 4"
  define b where "b = (y - 1901) div 100"
  define c where "c = (y - 1601) div 400"
  define i4 :: int where "i4 = (if y mod 4 = 0 then 1 else 0)"
  define i100 :: int where "i100 = (if y mod 100 = 0 then 1 else 0)"
  define i400 :: int where "i400 = (if y mod 400 = 0 then 1 else 0)"
  have s: "y + 1 - 1969 = y - 1968" "y + 1 - 1901 = y - 1900" "y + 1 - 1601 = y - 1600"
    by simp_all
  have n: "dayFromYear (y + 1) = 365 * (y + 1 - 1970) + (a + i4) - (b + i100) + (c + i400)"
    unfolding dayFromYear_def s div4_step div100_step div400_step a_def b_def c_def
      i4_def i100_def i400_def ..
  have o: "dayFromYear y = 365 * (y - 1970) + a - b + c"
    unfolding dayFromYear_def a_def b_def c_def ..
  have l: "i4 - i100 + i400 = (if inLeapYear y then 1 else 0)"
    unfolding i4_def i100_def i400_def inLeapYear_def
    by (rule leap_count) (erule mod_100_4, erule mod_400_100)
  have "dayFromYear (y + 1) = dayFromYear y + 365 + (i4 - i100 + i400)"
    unfolding n o by (simp add: algebra_simps)
  then show ?thesis
    unfolding l by simp
qed

lemma dayFromYear_bounds:
  "146097 * (y - 1970) - 506 \<le> 400 * dayFromYear y"
  "400 * dayFromYear y \<le> 146097 * (y - 1970) + 589"
proof -
  define a where "a = (y - 1969) div 4"
  define b where "b = (y - 1901) div 100"
  define c where "c = (y - 1601) div 400"
  have a: "4 * a \<le> y - 1969" "y - 1969 < 4 * a + 4"
    unfolding a_def using div_bounds [of 4 "y - 1969"] by simp_all
  have b: "100 * b \<le> y - 1901" "y - 1901 < 100 * b + 100"
    unfolding b_def using div_bounds [of 100 "y - 1901"] by simp_all
  have c: "400 * c \<le> y - 1601" "y - 1601 < 400 * c + 400"
    unfolding c_def using div_bounds [of 400 "y - 1601"] by simp_all
  have d: "400 * dayFromYear y = 146000 * y - 287620000 + 400 * a - 400 * b + 400 * c"
    by (simp add: dayFromYear_def a_def b_def c_def)
  show "146097 * (y - 1970) - 506 \<le> 400 * dayFromYear y"
    unfolding d using a b c by (simp add: algebra_simps)
  show "400 * dayFromYear y \<le> 146097 * (y - 1970) + 589"
    unfolding d using a b c by (simp add: algebra_simps)
qed

lemma year_lo: "dayFromYear (yearFromDay d) \<le> d"
proof -
  define k where "k = (400 * d) div 146097"
  have g: "146097 * k \<le> 400 * d"
    unfolding k_def using div_bounds [of 146097 "400 * d"] by simp
  have "400 * dayFromYear (1970 + k - 1) \<le> 146097 * k - 145508"
    using dayFromYear_bounds(2) [of "1970 + k - 1"] by (simp add: algebra_simps)
  then have "400 * dayFromYear (1970 + k - 1) \<le> 400 * d"
    using g by linarith
  then have "dayFromYear (1970 + k - 1) \<le> d" by simp
  then show ?thesis
    unfolding yearFromDay_def Let_def k_def [symmetric] by auto
qed

lemma year_hi: "d < dayFromYear (yearFromDay d + 1)"
proof -
  define k where "k = (400 * d) div 146097"
  have g: "400 * d < 146097 * k + 146097"
    unfolding k_def using div_bounds [of 146097 "400 * d"] by simp
  have "146097 * k + 291688 \<le> 400 * dayFromYear (1970 + k + 1 + 1)"
    using dayFromYear_bounds(1) [of "1970 + k + 1 + 1"] by (simp add: algebra_simps)
  then have "400 * d < 400 * dayFromYear (1970 + k + 1 + 1)"
    using g by linarith
  then have "d < dayFromYear (1970 + k + 1 + 1)" by simp
  then show ?thesis
    unfolding yearFromDay_def Let_def k_def [symmetric] by auto
qed

lemma dayWithinYear_range:
  "0 \<le> dayWithinYear d"
  "dayWithinYear d < (if inLeapYear (yearFromDay d) then 366 else 365)"
  using year_lo [of d] year_hi [of d] dayFromYear_step [of "yearFromDay d"]
  unfolding dayWithinYear_def by (simp_all split: if_splits)

lemma monthFromDay_range: "0 \<le> monthFromDay d \<and> monthFromDay d < 12"
  unfolding monthFromDay_def Let_def by simp

lemma dateFromDay_range: "1 \<le> dateFromDay d \<and> dateFromDay d \<le> 31"
proof -
  define w where "w = dayWithinYear d"
  define l where "l = leapDays (yearFromDay d)"
  have w: "0 \<le> w" "w < 365 + l"
    using dayWithinYear_range [of d] unfolding w_def l_def leapDays_def
    by (simp_all split: if_splits)
  have l: "l = 0 \<or> l = 1"
    unfolding l_def leapDays_def by simp
  show ?thesis
    unfolding dateFromDay_def monthFromDay_def Let_def w_def [symmetric] l_def [symmetric]
    using w l by auto
qed

lemma weekDay_range: "0 \<le> weekDay d \<and> weekDay d < 7"
  unfolding weekDay_def by simp

subsection \<open>The display format\<close>

lemma isDigit_digitChar: "isDigit (digitChar n)"
proof -
  have "n mod 10 < length ''0123456789''" by simp
  then have "''0123456789'' ! (n mod 10) \<in> set ''0123456789''" by (rule nth_mem)
  then show ?thesis unfolding isDigit_def digitChar_def .
qed

lemma digitsOf_digits: "list_all isDigit (digitsOf n)"
proof (induction n rule: digitsOf.induct)
  case (1 n)
  show ?case
  proof (cases "n < 10")
    case True
    then show ?thesis by (subst digitsOf.simps) (simp add: isDigit_digitChar)
  next
    case False
    then show ?thesis using 1 by (subst digitsOf.simps) (simp add: isDigit_digitChar)
  qed
qed

lemma digitsOf_length: "0 < length (digitsOf n)"
  by (subst digitsOf.simps) simp

lemma digitsOf_length_100:
  assumes "n < 100"
  shows "length (digitsOf n) \<le> 2"
proof -
  have "n div 10 < 10" using assms by simp
  then have "length (digitsOf (n div 10)) = 1"
    by (subst digitsOf.simps) simp
  then show ?thesis
    by (subst digitsOf.simps) simp
qed

lemma padZeros_digits:
  assumes "list_all isDigit str"
  shows "list_all isDigit (padZeros w str)"
proof -
  have "isDigit (CHR ''0'')" by (simp add: isDigit_def)
  then have "list_all isDigit (replicate (w - length str) (CHR ''0''))"
    by (simp add: list_all_iff)
  then show ?thesis
    using assms by (simp add: padZeros_def)
qed

lemma padZeros_length: "length (padZeros w str) = max w (length str)"
  by (simp add: padZeros_def)

lemma isDigit_not_minus: "isDigit c \<Longrightarrow> c \<noteq> CHR ''-''"
  by (auto simp: isDigit_def)

lemma isYearString_yearString: "isYearString (yearString y)"
proof -
  define ds where "ds = padZeros 4 (digitsOf (nat \<bar>y\<bar>))"
  have d: "list_all isDigit ds"
    unfolding ds_def by (intro padZeros_digits digitsOf_digits)
  have l: "4 \<le> length ds"
    unfolding ds_def by (simp add: padZeros_length)
  show ?thesis
  proof (cases "y < 0")
    case True
    then have "yearString y = CHR ''-'' # ds"
      by (simp add: yearString_def ds_def)
    then show ?thesis using d l by (simp add: isYearString_def)
  next
    case False
    then have e: "yearString y = ds"
      by (simp add: yearString_def ds_def)
    obtain c cs where c: "ds = c # cs"
      using l by (cases ds) auto
    then have "c \<noteq> CHR ''-''"
      using d isDigit_not_minus by simp
    then show ?thesis using d l c unfolding e by (simp add: isYearString_def)
  qed
qed

lemma isDateString_parts:
  assumes "length w = 3" and "length m = 3" and "length dd = 2"
    and "w \<in> set weekdayNames" and "m \<in> set monthNames"
    and "list_all isDigit dd" and "isYearString yy"
  shows "isDateString (w @ '' '' @ m @ '' '' @ dd @ '' '' @ yy)"
  using assms by (simp add: isDateString_def)

lemma weekday_name:
  "weekdayNames ! nat (weekDay d) \<in> set weekdayNames"
  "length (weekdayNames ! nat (weekDay d)) = 3"
proof -
  have r: "0 \<le> weekDay d" "weekDay d < 7"
    unfolding weekDay_def by simp_all
  then have "nat (weekDay d) < length weekdayNames"
    by (simp add: weekdayNames_def)
  then show m: "weekdayNames ! nat (weekDay d) \<in> set weekdayNames"
    by (rule nth_mem)
  have "list_all (\<lambda>x. length x = 3) weekdayNames"
    by (simp add: weekdayNames_def)
  with m show "length (weekdayNames ! nat (weekDay d)) = 3"
    by (simp add: list_all_iff)
qed

lemma month_name:
  "monthNames ! nat (monthFromDay d) \<in> set monthNames"
  "length (monthNames ! nat (monthFromDay d)) = 3"
proof -
  have r: "0 \<le> monthFromDay d" "monthFromDay d < 12"
    unfolding monthFromDay_def Let_def by simp_all
  then have "nat (monthFromDay d) < length monthNames"
    by (simp add: monthNames_def)
  then show m: "monthNames ! nat (monthFromDay d) \<in> set monthNames"
    by (rule nth_mem)
  have "list_all (\<lambda>x. length x = 3) monthNames"
    by (simp add: monthNames_def)
  with m show "length (monthNames ! nat (monthFromDay d)) = 3"
    by (simp add: list_all_iff)
qed

lemma date_digits:
  "length (padZeros 2 (digitsOf (nat (dateFromDay d)))) = 2"
  "list_all isDigit (padZeros 2 (digitsOf (nat (dateFromDay d))))"
proof -
  have "nat (dateFromDay d) < 100"
    using dateFromDay_range [of d] by linarith
  then have "length (digitsOf (nat (dateFromDay d))) \<le> 2"
    by (rule digitsOf_length_100)
  then show "length (padZeros 2 (digitsOf (nat (dateFromDay d)))) = 2"
    by (simp add: padZeros_length)
  show "list_all isDigit (padZeros 2 (digitsOf (nat (dateFromDay d))))"
    by (intro padZeros_digits digitsOf_digits)
qed

lemma toDateString_shape: "isDateString (toDateString p (TimeValue t))"
  unfolding toDateString.simps Let_def
  by (rule isDateString_parts)
    (simp_all add: weekday_name month_name date_digits isYearString_yearString)

lemma toDateString_example:
  "toDateString engine (TimeValue 1704067200000) = ''Mon Jan 01 2024''"
  by code_simp

subsection \<open>Evaluations on the sample data\<close>

lemma engine_simps:
  "castObjectId engine = hexObjectId" "parseDate engine = parseISODate"
  "stringToNumber engine = decimalToNumber" "numberToString engine = integerToString"
  "localTZA engine = (\<lambda>t. 0)"
  by (simp_all add: engine_def)

lemma id7: "hexObjectId ''000000000000000000000007'' = Some 7"
  by code_simp

lemma find_alice: "findById engine store5 aliceId = Inr (Some alice)"
  by code_simp

lemma range_eval:
  "(if unparseable engine (JStr ''2023-02-01'') \<or> unparseable engine (JStr ''2024-01-01'')
    then (Reply 500 (ErrorBody ''Server error''), store5)
    else (let sel = filter (\<lambda>x. userId x = user_id alice \<and>
                               inRange (boundOf engine (JStr ''2023-02-01''))
                                 (boundOf engine (JStr ''2024-01-01'')) (date x))
                      (exercises store5)
          in (Reply 200 (LogBody (username alice) (length sel) (user_id alice)
                          (map (logView engine) sel)), store5))) =
   (Reply 200 (LogBody ''alice'' 3 7
      [\<lparr>entry_description = ''run'', entry_duration = Fin 30, entry_date = ''Wed Feb 01 2023''\<rparr>,
       \<lparr>entry_description = ''run'', entry_duration = Fin 30, entry_date = ''Wed Mar 01 2023''\<rparr>,
       \<lparr>entry_description = ''run'', entry_duration = Fin 30, entry_date = ''Mon Jan 01 2024''\<rparr>]),
    store5)"
  by code_simp



lemma number0: "toNumberJS engine (JStr ''0'') = Fin 0"
  by code_simp

lemma alice_absent: "findOneByUsername engine store0 (JStr ''alice'') = None"
  by code_simp

lemma rival_saved: "concurrentSaves [rival] store0 = \<lparr>users = [rival], exercises = []\<rparr>"
  by code_simp

lemma rival_blocks:
  "saveUser (concurrentSaves [rival] store0)
     \<lparr>user_id = 7, username = toStringJS engine (JStr ''alice''), createdAt = 5, updatedAt = 5\<rparr>
   = Inl DuplicateKey"
  by code_simp

lemma rival_found:
  "list_ex (\<lambda>u. username u = toStringJS engine (JStr ''alice''))
     (users (concurrentSaves [rival] store0))"
  by code_simp

lemma rival_first:
  "find (\<lambda>u. username u = toStringJS engine (JStr ''alice''))
     (users (concurrentSaves [rival] store0)) = Some rival"
  by code_simp

lemma append_eval:
  "appendExercise engine 99 8 aliceId (JStr ''run'') (JStr ''30'') (JStr ''2023-01-15'') store1 =
     (Reply 200 (ExerciseBody 7 ''alice'' ''run'' (Fin 30) ''Sun Jan 15 2023''), store2)"
  by code_simp

lemma pattern_eval: "specYYYYMMDD ''2023-01-15''"
  by code_simp

lemma parse_eval: "parseDate engine ''2023-01-15'' = TimeValue 1673740800000"
  by code_simp

lemma logs_eval:
  "getLogs engine aliceId JUndefined JUndefined JUndefined store2 =
     (Reply 200 (LogBody ''alice'' 1 7
        [\<lparr>entry_description = ''run'', entry_duration = Fin 30,
          entry_date = ''Sun Jan 15 2023''\<rparr>]), store2)"
  by code_simp

lemma store2_valid: "validDates store2"
  by code_simp

lemma alice_in_store1: "findById engine store1 aliceId = Inr (Some alice)"
  by code_simp

lemma alice_fields:
  "truthy (JStr ''run'')" "toStringJS engine (JStr ''run'') \<noteq> []"
  "truthy (JStr ''30'')" "toNumberJS engine (JStr ''30'') \<noteq> NaN"
  "\<not> list_ex (\<lambda>x. exercise_id x = 8) (exercises store1)"
  by code_simp+

lemma stored_eval:
  "stored store1 alice (newExercise engine 8 alice (JStr ''run'') (JStr ''30'') 1673740800000)
     engine =
   (Reply 200 (ExerciseBody 7 ''alice'' ''run'' (Fin 30) ''Sun Jan 15 2023''), store2)"
  by code_simp

lemma stored_now_eval:
  "stored store1 alice (newExercise engine 8 alice (JStr ''run'') (JStr ''30'') 99) engine =
   (Reply 200 (ExerciseBody 7 ''alice'' ''run'' (Fin 30) ''Thu Jan 01 1970''),
    \<lparr>users = [alice], exercises = [run 8 99]\<rparr>)"
  by code_simp

lemma walk_eval:
  "appendExercise engine 99 9 aliceId (JStr ''walk'') (JStr ''20'') (JStr ''15/01/2023'') store2 =
     (Reply 200 (ExerciseBody 7 ''alice'' ''walk'' (Fin 20) ''Thu Jan 01 1970''), store3)"
  by code_simp

lemma range_limit_eval:
  "(if unparseable engine (JStr ''2023-02-01'') \<or> unparseable engine (JStr ''2024-01-01'')
    then (Reply 500 (ErrorBody ''Server error''), store5)
    else (let sel = filter (\<lambda>x. userId x = user_id alice \<and>
                               inRange (boundOf engine (JStr ''2023-02-01''))
                                 (boundOf engine (JStr ''2024-01-01'')) (date x))
                      (exercises store5)
          in case (if truthy (JStr ''2'') then applyLimit (toNumberJS engine (JStr ''2'')) sel
                   else Inr sel) of
               Inl e \<Rightarrow> (Reply 500 (ErrorBody ''Server error''), store5)
             | Inr exs \<Rightarrow>
                 (Reply 200 (LogBody (username alice) (length exs) (user_id alice)
                               (map (logView engine) exs)), store5))) =
   (Reply 200 (LogBody ''alice'' 2 7
      [\<lparr>entry_description = ''run'', entry_duration = Fin 30, entry_date = ''Wed Feb 01 2023''\<rparr>,
       \<lparr>entry_description = ''run'', entry_duration = Fin 30, entry_date = ''Wed Mar 01 2023''\<rparr>]),
    store5)"
  by code_simp

subsection \<open>The date range of \<^verbatim>\<open>GET /api/users/:_id/logs\<close>\<close>

text \<open>
  Claim C1, as amended. For every call on an existing user, with or without a limit: when
  \<open>from\<close> and \<open>to\<close> are each absent, empty or parseable, the exercises selected are exactly
  the user's exercises whose date is at or after the parsed \<open>from\<close> (when present) and at
  or before the parsed \<open>to\<close> (when present), in storage order, both ends included; the
  limit, when there is one, is applied to this selection, and the log and \<open>count\<close> are what
  is left. When \<open>from\<close> or \<open>to\<close> is present and parses to an invalid Date, the query is
  refused by the cast of its operand and the reply is 500 \<^verbatim>\<open>Server error\<close>: there is no
  unbounded comparison.
\<close>

theorem getLogs_date_filter:
  assumes "findById p s idParam = Inr (Some u)"
  shows "getLogs p idParam fromQ toQ limitQ s =
     (if unparseable p fromQ \<or> unparseable p toQ
      then (Reply 500 (ErrorBody ''Server error''), s)
      else (let sel = filter (\<lambda>x. userId x = user_id u \<and>
                                 inRange (boundOf p fromQ) (boundOf p toQ) (date x))
                        (exercises s)
            in case (if truthy limitQ then applyLimit (toNumberJS p limitQ) sel else Inr sel) of
                 Inl e \<Rightarrow> (Reply 500 (ErrorBody ''Server error''), s)
               | Inr exs \<Rightarrow>
                   (Reply 200 (LogBody (username u) (length exs) (user_id u)
                                 (map (logView p) exs)), s)))"
  using assms
  by (simp add: getLogs_def Let_def serverError_def
      findExercises_found [OF findById_Some [OF assms], unfolded Let_def]
      split: sum.splits)

theorem getLogs_date_filter_witness:
  "getLogs engine aliceId (JStr ''2023-02-01'') (JStr ''2024-01-01'') (JStr ''2'') store5 =
   (Reply 200 (LogBody ''alice'' 2 7
      [\<lparr>entry_description = ''run'', entry_duration = Fin 30, entry_date = ''Wed Feb 01 2023''\<rparr>,
       \<lparr>entry_description = ''run'', entry_duration = Fin 30, entry_date = ''Wed Mar 01 2023''\<rparr>]),
    store5)"
  unfolding getLogs_date_filter [OF find_alice] by (rule range_limit_eval)

text \<open>
  The claim as stated fails on an unparseable \<open>from\<close>: the reply is an error, while the same
  request without \<open>from\<close> returns the exercise.
\<close>

theorem getLogs_unparseable_from_counterexample:
  "parseDate engine ''abc'' = InvalidDate
   \<and> getLogs engine aliceId (JStr ''abc'') JUndefined JUndefined store2 =
       (Reply 500 (ErrorBody ''Server error''), store2)
   \<and> getLogs engine aliceId JUndefined JUndefined JUndefined store2 =
       (Reply 200 (LogBody ''alice'' 1 7
          [\<lparr>entry_description = ''run'', entry_duration = Fin 30,
            entry_date = ''Sun Jan 15 2023''\<rparr>]), store2)"
  by code_simp

subsection \<open>An unknown user in \<^verbatim>\<open>POST /api/users/:_id/exercises\<close>\<close>

text \<open>
  Claim C2, as amended. When the user id refers to no existing user, no exercise is
  created and the store is unchanged; the reply is 400 when description or duration is
  falsy (the fields are checked before the user is looked up), otherwise 500 when the id
  cannot be cast to an ObjectId, otherwise 404 \<^verbatim>\<open>user not found\<close>.
\<close>

theorem appendExercise_unknown_user:
  assumes "\<not> list_ex (\<lambda>u. castObjectId p idParam = Some (user_id u)) (users s)"
  shows "appendExercise p now newId idParam desc dur rawDate s =
           (if \<not> truthy desc \<or> \<not> truthy dur
            then Reply 400 (ErrorBody ''description and duration are required'')
            else if castObjectId p idParam = None
            then Reply 500 (ErrorBody ''Server error'')
            else Reply 404 (ErrorBody ''user not found''), s)"
proof (cases "castObjectId p idParam")
  case None
  then have "findById p s idParam = Inl CastError"
    by (simp add: findById_def)
  then show ?thesis
    using None by (simp add: appendExercise_def serverError_def)
next
  case (Some i)
  then have "find (\<lambda>u. user_id u = i) (users s) = None"
    using assms by (auto simp: find_None_iff list_ex_iff)
  then have "findById p s idParam = Inr None"
    using Some by (simp add: findById_def)
  then show ?thesis
    using Some by (simp add: appendExercise_def)
qed

theorem appendExercise_unknown_user_witness:
  "appendExercise engine 0 1 aliceId (JStr ''run'') (JStr ''30'') JUndefined store0 =
     (Reply 404 (ErrorBody ''user not found''), store0)"
proof -
  have "\<not> list_ex (\<lambda>u. castObjectId engine aliceId = Some (user_id u)) (users store0)"
    by (simp add: store0_def)
  from appendExercise_unknown_user [OF this] show ?thesis
    by (simp add: engine_simps aliceId_def id7)
qed

text \<open>
  The claim as stated fails on a request without description, and on an id that is not
  an ObjectId: neither is answered with 404.
\<close>

theorem appendExercise_unknown_user_counterexample:
  "appendExercise engine 0 1 aliceId JUndefined (JStr ''30'') JUndefined store0 =
     (Reply 400 (ErrorBody ''description and duration are required''), store0)
   \<and> appendExercise engine 0 1 ''xyz'' (JStr ''run'') (JStr ''30'') JUndefined store0 =
     (Reply 500 (ErrorBody ''Server error''), store0)"
  by code_simp

subsection \<open>\<^verbatim>\<open>POST /api/users\<close> is idempotent\<close>



subsection \<open>The stored date of a new exercise\<close>

text \<open>
  Claim C4, as amended. The pattern recognised is exactly four digits, a hyphen, two
  digits, a hyphen and two digits. Take a call that is valid otherwise: description and
  duration are truthy and pass their casts, the user exists and the ObjectId on offer is
  fresh. If the raw date is absent, falsy or does not match the pattern, the exercise is
  stored with the clock reading of the call as its date. If the raw date matches the
  pattern and parses to a valid Date, the exercise is stored with that parse as its
  date. If it matches the pattern and parses to an invalid Date, the reply is 500
  \<^verbatim>\<open>Server error\<close> and nothing is stored.
\<close>

theorem appendExercise_stored_date:
  assumes "truthy desc" and "toStringJS p desc \<noteq> []"
    and "truthy dur" and "toNumberJS p dur \<noteq> NaN"
    and "findById p s idParam = Inr (Some u)"
    and "\<not> list_ex (\<lambda>x. exercise_id x = newId) (exercises s)"
  shows "(\<not> truthy rawDate \<or> \<not> specYYYYMMDD (toStringJS p rawDate) \<longrightarrow>
            appendExercise p now newId idParam desc dur rawDate s =
              stored s u (newExercise p newId u desc dur now) p)
         \<and> (\<forall>str t. rawDate = JStr str \<and> specYYYYMMDD str \<and> parseDate p str = TimeValue t \<longrightarrow>
            appendExercise p now newId idParam desc dur rawDate s =
              stored s u (newExercise p newId u desc dur t) p)
         \<and> (\<forall>str. rawDate = JStr str \<and> specYYYYMMDD str \<and> parseDate p str = InvalidDate \<longrightarrow>
            appendExercise p now newId idParam desc dur rawDate s =
              (Reply 500 (ErrorBody ''Server error''), s))"
proof -
  note sv = saveExercise_ok [OF assms(1,2,4,6)]
  have t: "truthy (JStr str)" if "specYYYYMMDD str" for str
    using that by (cases str) simp_all
  have a: "appendExercise p now newId idParam desc dur rawDate s =
             stored s u (newExercise p newId u desc dur now) p"
    if "\<not> truthy rawDate \<or> \<not> specYYYYMMDD (toStringJS p rawDate)"
    using that assms(1,3,5) sv
    by (auto simp: appendExercise_def isValid_eq_spec stored_def newExercise_def
        toDateStringSafe_def Let_def)
  have b: "appendExercise p now newId idParam desc dur (JStr str) s =
             stored s u (newExercise p newId u desc dur t) p"
    if "specYYYYMMDD str" and "parseDate p str = TimeValue t" for str t
    using that t [OF that(1)] assms(1,3,5) sv
    by (simp add: appendExercise_def isValid_eq_spec stored_def newExercise_def
        toDateStringSafe_def Let_def)
  have c: "appendExercise p now newId idParam desc dur (JStr str) s =
             (Reply 500 (ErrorBody ''Server error''), s)"
    if "specYYYYMMDD str" and "parseDate p str = InvalidDate" for str
    using that t [OF that(1)] assms(1,3,5)
    by (simp add: appendExercise_def isValid_eq_spec saveExercise_invalid serverError_def)
  show ?thesis
    using a b c by blast
qed

theorem appendExercise_stored_date_witness:
  "appendExercise engine 99 8 aliceId (JStr ''run'') (JStr ''30'') (JStr ''2023-01-15'') store1 =
     (Reply 200 (ExerciseBody 7 ''alice'' ''run'' (Fin 30) ''Sun Jan 15 2023''), store2)
   \<and> date (last (exercises store2)) = parseDate engine ''2023-01-15''
   \<and> appendExercise engine 99 8 aliceId (JStr ''run'') (JStr ''30'') JUndefined store1 =
     (Reply 200 (ExerciseBody 7 ''alice'' ''run'' (Fin 30) ''Thu Jan 01 1970''),
      \<lparr>users = [alice], exercises = [run 8 99]\<rparr>)"
proof -
  note th = appendExercise_stored_date
    [OF alice_fields(1,2,3,4) alice_in_store1 alice_fields(5), where now = 99]
  from th [where rawDate = "JStr ''2023-01-15''"]
  have "\<forall>str t. JStr ''2023-01-15'' = JStr str \<and> specYYYYMMDD str \<and>
            parseDate engine str = TimeValue t \<longrightarrow>
          appendExercise engine 99 8 aliceId (JStr ''run'') (JStr ''30'') (JStr ''2023-01-15'') store1 =
            stored store1 alice (newExercise engine 8 alice (JStr ''run'') (JStr ''30'') t) engine"
    by blast
  with pattern_eval parse_eval have
    "appendExercise engine 99 8 aliceId (JStr ''run'') (JStr ''30'') (JStr ''2023-01-15'') store1 =
       stored store1 alice (newExercise engine 8 alice (JStr ''run'') (JStr ''30'') 1673740800000) engine"
    by blast
  then have matching:
    "appendExercise engine 99 8 aliceId (JStr ''run'') (JStr ''30'') (JStr ''2023-01-15'') store1 =
       (Reply 200 (ExerciseBody 7 ''alice'' ''run'' (Fin 30) ''Sun Jan 15 2023''), store2)"
    unfolding stored_eval .
  from th [where rawDate = JUndefined]
  have "appendExercise engine 99 8 aliceId (JStr ''run'') (JStr ''30'') JUndefined store1 =
          stored store1 alice (newExercise engine 8 alice (JStr ''run'') (JStr ''30'') 99) engine"
    by simp
  then have absent:
    "appendExercise engine 99 8 aliceId (JStr ''run'') (JStr ''30'') JUndefined store1 =
       (Reply 200 (ExerciseBody 7 ''alice'' ''run'' (Fin 30) ''Thu Jan 01 1970''),
        \<lparr>users = [alice], exercises = [run 8 99]\<rparr>)"
    unfolding stored_now_eval .
  have "date (last (exercises store2)) = parseDate engine ''2023-01-15''"
    unfolding parse_eval by (simp add: store2_def run_def)
  with matching absent show ?thesis
    by blast
qed

text \<open>
  The claim as stated fails on a raw date of the right pattern that is no date: nothing is
  stored, so no stored date is the parse of the string.
\<close>

theorem appendExercise_stored_date_counterexample:
  "specYYYYMMDD ''2023-13-45''
   \<and> parseDate engine ''2023-13-45'' = InvalidDate
   \<and> appendExercise engine 99 8 aliceId (JStr ''run'') (JStr ''30'') (JStr ''2023-13-45'') store1 =
       (Reply 500 (ErrorBody ''Server error''), store1)"
  by code_simp

subsection \<open>The limit of \<^verbatim>\<open>GET /api/users/:_id/logs\<close>\<close>




subsection \<open>Recovery from a duplicate username\<close>

text \<open>
  Claim C6. Suppose the lookup finds no user, and the save is then refused with a
  duplicate-key error because a concurrent request has stored the username in between.
  Then the handler looks the username up again and replies 200 with the username and the
  id of the record now stored, whatever other saves land before that second lookup; the
  duplicate-key error never reaches the caller.
\<close>

theorem createOrGetUser_duplicate_recovered:
  assumes "truthy v" and "findOneByUsername p s v = None"
    and "saveUser (concurrentSaves c1 s)
           \<lparr>user_id = newId, username = toStringJS p v, createdAt = now, updatedAt = now\<rparr>
         = Inl DuplicateKey"
    and "list_ex (\<lambda>u. username u = toStringJS p v) (users (concurrentSaves c1 s))"
  shows "\<exists>e. find (\<lambda>u. username u = toStringJS p v) (users (concurrentSaves c1 s)) = Some e \<and>
             createOrGetUser p now newId c1 c2 v s =
               (Reply 200 (UserBody (toStringJS p v) (user_id e)),
                concurrentSaves c2 (concurrentSaves c1 s))"
proof -
  obtain e where e: "find (\<lambda>u. username u = toStringJS p v) (users (concurrentSaves c1 s)) = Some e"
    using assms(4) by (cases "find (\<lambda>u. username u = toStringJS p v) (users (concurrentSaves c1 s))")
      (auto simp: find_None_iff list_ex_iff)
  then have n: "username e = toStringJS p v"
    by (auto simp: find_Some_iff)
  have "find (\<lambda>u. username u = toStringJS p v)
          (users (concurrentSaves c2 (concurrentSaves c1 s))) = Some e"
    by (rule find_concurrentSaves [OF e])
  then have "createOrGetUser p now newId c1 c2 v s =
               (Reply 200 (UserBody (toStringJS p v) (user_id e)),
                concurrentSaves c2 (concurrentSaves c1 s))"
    using assms(1,2,3) n
    by (simp add: createOrGetUser_def castString_truthy findOneByUsername_truthy Let_def)
  with e show ?thesis by blast
qed

theorem createOrGetUser_duplicate_recovered_witness:
  "createOrGetUser engine 5 7 [rival] [] (JStr ''alice'') store0 =
     (Reply 200 (UserBody ''alice'' 9), \<lparr>users = [rival], exercises = []\<rparr>)"
proof -
  have t: "truthy (JStr ''alice'')" by simp
  from createOrGetUser_duplicate_recovered [OF t alice_absent rival_blocks rival_found, of "[]"]
  obtain e where
    e: "find (\<lambda>u. username u = toStringJS engine (JStr ''alice''))
          (users (concurrentSaves [rival] store0)) = Some e"
    and c: "createOrGetUser engine 5 7 [rival] [] (JStr ''alice'') store0 =
          (Reply 200 (UserBody (toStringJS engine (JStr ''alice'')) (user_id e)),
           concurrentSaves [] (concurrentSaves [rival] store0))"
    by (elim exE conjE)
  from e have "e = rival"
    unfolding rival_first by simp
  then have "user_id e = 9"
    by (simp add: rival_def)
  then show ?thesis
    unfolding c by (simp add: rival_saved concurrentSaves_Nil)
qed

subsection \<open>Dates in replies\<close>

text \<open>
  Claim C7. The date in the reply to a successful \<^verbatim>\<open>POST /api/users/:_id/exercises\<close> is the
  rendering of the date of the exercise just stored, which is a time value and not a
  string, and it has the display format. In a store whose dates are valid, every entry of
  a log carries the rendering of the date of the stored exercise it comes from, and each
  has the display format.
\<close>

theorem replies_carry_display_date:
  "(appendExercise p now newId idParam desc dur rawDate s =
      (Reply 200 (ExerciseBody i un de du ds), s') \<longrightarrow>
      isDateString ds \<and>
      (\<exists>ex t. exercises s' = exercises s @ [ex] \<and> date ex = TimeValue t \<and>
               ds = toDateString p (TimeValue t)))
   \<and> (validDates st \<and> getLogs p idParam' fromQ toQ limitQ st =
         (Reply 200 (LogBody un' c i' lg), st') \<longrightarrow>
      list_all (\<lambda>e. isDateString (entry_date e)) lg \<and>
      (\<exists>exs. set exs \<subseteq> set (exercises st) \<and> length lg = length exs \<and>
             map entry_date lg = map (\<lambda>x. toDateString p (date x)) exs \<and>
             list_all (\<lambda>x. date x \<noteq> InvalidDate) exs))"
proof (intro conjI impI)
  assume a: "appendExercise p now newId idParam desc dur rawDate s =
      (Reply 200 (ExerciseBody i un de du ds), s')"
  from appendExercise_ok [OF a] obtain u :: user and ex where
    sv: "saveExercise p s newId (user_id u) desc (toNumberJS p dur)
           (if truthy rawDate \<and> isValidDateStringYYYYMMDD (toStringJS p rawDate)
            then newDate p rawDate else TimeValue now) = Inr (ex, s')"
    and b: "ExerciseBody i un de du ds =
            ExerciseBody (user_id u) (username u) (description ex) (duration ex)
              (toDateStringSafe p (date ex))"
    by blast
  from saveExercise_Inr(1) [OF sv] obtain t where t: "date ex = TimeValue t"
    by blast
  have ds: "ds = toDateString p (TimeValue t)"
    using b t by (simp add: toDateStringSafe_def)
  show "isDateString ds"
    unfolding ds by (rule toDateString_shape)
  have "exercises s' = exercises s @ [ex]"
    using saveExercise_Inr(2) [OF sv] by simp
  then show "\<exists>ex t. exercises s' = exercises s @ [ex] \<and> date ex = TimeValue t \<and>
               ds = toDateString p (TimeValue t)"
    using t ds by blast
next
  assume a: "validDates st \<and> getLogs p idParam' fromQ toQ limitQ st =
         (Reply 200 (LogBody un' c i' lg), st')"
  then obtain exs where sub: "set exs \<subseteq> set (exercises st)" and lg: "lg = map (logView p) exs"
    using getLogs_ok by blast
  have v: "list_all (\<lambda>x. date x \<noteq> InvalidDate) exs"
    using a sub by (auto simp: validDates_def list_all_iff)
  have "isDateString (entry_date (logView p x))" if "x \<in> set exs" for x
  proof -
    from v that obtain t where "date x = TimeValue t"
      by (cases "date x") (auto simp: list_all_iff)
    then show ?thesis
      by (simp add: logView_def toDateStringSafe_def toDateString_shape del: toDateString.simps)
  qed
  then show "list_all (\<lambda>e. isDateString (entry_date e)) lg"
    unfolding lg by (simp add: list_all_iff)
  have "map entry_date lg = map (\<lambda>x. toDateString p (date x)) exs"
    unfolding lg by (simp add: logView_def toDateStringSafe_def)
  then show "\<exists>exs. set exs \<subseteq> set (exercises st) \<and> length lg = length exs \<and>
             map entry_date lg = map (\<lambda>x. toDateString p (date x)) exs \<and>
             list_all (\<lambda>x. date x \<noteq> InvalidDate) exs"
    using sub v lg by (intro exI [of _ exs]) simp
qed

theorem replies_carry_display_date_witness:
  "isDateString ''Sun Jan 15 2023'' \<and>
   list_all (\<lambda>e. isDateString (entry_date e))
     [\<lparr>entry_description = ''run'', entry_duration = Fin 30, entry_date = ''Sun Jan 15 2023''\<rparr>]"
  using replies_carry_display_date
    [where p = engine and now = 99 and newId = 8 and idParam = aliceId
       and desc = "JStr ''run''" and dur = "JStr ''30''" and rawDate = "JStr ''2023-01-15''"
       and s = store1 and i = 7 and un = "''alice''" and de = "''run''" and du = "Fin 30"
       and ds = "''Sun Jan 15 2023''" and s' = store2
       and st = store2 and idParam' = aliceId and fromQ = JUndefined and toQ = JUndefined
       and limitQ = JUndefined and un' = "''alice''" and c = 1 and i' = 7
       and lg = "[\<lparr>entry_description = ''run'', entry_duration = Fin 30,
                   entry_date = ''Sun Jan 15 2023''\<rparr>]" and st' = store2]
    append_eval logs_eval store2_valid
  by blast

subsection \<open>Stored dates are valid\<close>

text \<open>
  Claim C8. If every exercise in the store has a valid date, so has every exercise in the
  store after \<^verbatim>\<open>POST /api/users/:_id/exercises\<close>, whatever the raw date: absent, malformed,
  or of the right pattern with no calendar meaning.
\<close>

theorem appendExercise_valid_dates:
  assumes "validDates s"
  shows "validDates (snd (appendExercise p now newId idParam desc dur rawDate s))"
proof (cases "appendExercise p now newId idParam desc dur rawDate s")
  case (Pair r s')
  show ?thesis
  proof (cases "\<exists>b. r = Reply 200 b")
    case True
    then obtain b where "appendExercise p now newId idParam desc dur rawDate s = (Reply 200 b, s')"
      using Pair by blast
    from appendExercise_ok [OF this] obtain u :: user and ex where
      sv: "saveExercise p s newId (user_id u) desc (toNumberJS p dur)
             (if truthy rawDate \<and> isValidDateStringYYYYMMDD (toStringJS p rawDate)
              then newDate p rawDate else TimeValue now) = Inr (ex, s')"
      by blast
    from saveExercise_Inr(1,2) [OF sv] assms show ?thesis
      unfolding Pair by (auto simp: validDates_def)
  next
    case False
    then have "s' = s"
      using appendExercise_failure [OF Pair] by blast
    then show ?thesis
      using assms unfolding Pair by simp
  qed
qed

theorem appendExercise_valid_dates_witness:
  "validDates store2
   \<and> snd (appendExercise engine 99 9 aliceId (JStr ''walk'') (JStr ''20'') (JStr ''15/01/2023'')
            store2) = store3
   \<and> exercises store3 = exercises store2 @ [walk]
   \<and> validDates store3"
proof -
  from appendExercise_valid_dates [OF store2_valid, of engine 99 9 aliceId "JStr ''walk''"
      "JStr ''20''" "JStr ''15/01/2023''"]
  have "validDates store3"
    unfolding walk_eval by simp
  moreover have "exercises store3 = exercises store2 @ [walk]"
    by (simp add: store3_def store2_def)
  ultimately show ?thesis
    using store2_valid by (simp add: walk_eval)
qed

subsection \<open>Field validation of \<^verbatim>\<open>POST /api/users/:_id/exercises\<close>\<close>

text \<open>
  Claim C9. A description or duration that is present but falsy (the empty string, the
  number 0, and likewise \<^verbatim>\<open>null\<close>, \<^verbatim>\<open>false\<close> and NaN) is refused with status 400 and the
  message \<^verbatim>\<open>description and duration are required\<close>, exactly as when both fields are
  absent, and the store is left as it was. The string \<^verbatim>\<open>"0"\<close> of a form body is truthy and
  is not concerned.
\<close>

theorem appendExercise_falsy_field_rejected:
  assumes "\<not> truthy desc \<or> \<not> truthy dur"
  shows "appendExercise p now newId idParam desc dur rawDate s =
           (Reply 400 (ErrorBody ''description and duration are required''), s)
         \<and> appendExercise p now newId idParam desc dur rawDate s =
           appendExercise p now newId idParam JUndefined JUndefined rawDate s"
  using assms by (auto simp: appendExercise_def)

theorem appendExercise_falsy_field_rejected_witness:
  "appendExercise engine 0 1 ''000000000000000000000007'' (JStr []) (JNum (Fin 0)) JUndefined
     \<lparr>users = [], exercises = []\<rparr> =
   (Reply 400 (ErrorBody ''description and duration are required''),
    \<lparr>users = [], exercises = []\<rparr>)"
  using appendExercise_falsy_field_rejected
    [of "JStr []" "JNum (Fin 0)" engine 0 1 "''000000000000000000000007''" JUndefined
        "\<lparr>users = [], exercises = []\<rparr>"]
  by simp

subsection \<open>A limit of zero\<close>

text \<open>
  Claim C10. For an existing user, when \<^verbatim>\<open>Number(limit)\<close> is 0 and the date bounds are
  absent or parseable, the log holds every exercise of the user that lies in the date
  range, in storage order, and \<open>count\<close> is their number: nothing is cut off. This holds for
  the empty string, which is falsy and sets no limit, and for \<^verbatim>\<open>"0"\<close>, which sets the limit
  0 that the server reads as no limit. (With an unparseable bound the reply is the 500 of
  the date range.)
\<close>

theorem getLogs_limit_zero:
  assumes "findById p s idParam = Inr (Some u)" and "toNumberJS p limitQ = Fin 0"
  shows "getLogs p idParam fromQ toQ limitQ s =
     (if unparseable p fromQ \<or> unparseable p toQ
      then (Reply 500 (ErrorBody ''Server error''), s)
      else (let sel = filter (\<lambda>x. userId x = user_id u \<and>
                                 inRange (boundOf p fromQ) (boundOf p toQ) (date x))
                        (exercises s)
            in (Reply 200 (LogBody (username u) (length sel) (user_id u)
                            (map (logView p) sel)), s)))"
  using assms
  by (simp add: getLogs_def Let_def serverError_def
      findExercises_found [OF findById_Some [OF assms(1)], unfolded Let_def])

theorem getLogs_limit_zero_witness:
  "getLogs engine aliceId (JStr ''2023-02-01'') (JStr ''2024-01-01'') (JStr ''0'') store5 =
   (Reply 200 (LogBody ''alice'' 3 7
      [\<lparr>entry_description = ''run'', entry_duration = Fin 30, entry_date = ''Wed Feb 01 2023''\<rparr>,
       \<lparr>entry_description = ''run'', entry_duration = Fin 30, entry_date = ''Wed Mar 01 2023''\<rparr>,
       \<lparr>entry_description = ''run'', entry_duration = Fin 30, entry_date = ''Mon Jan 01 2024''\<rparr>]),
    store5)"
  unfolding getLogs_limit_zero [OF find_alice number0] by (rule range_eval)

end
